theory Spec2Isabelle
  imports Main
begin

section \<open>The world around the scraper\<close>

text \<open>
  \<^verbatim>\<open>arxiv_pdf_scraper.py\<close> is a script of three functions, \<open>descargar_pdf\<close>,
  \<open>guardar_en_csv\<close> and \<open>scrape_arxiv\<close>. Everything they do is an effect on the outside:
  files, the console, HTTP requests and a browser page. The model threads a record of the
  observable state (\<open>world\<close>) through the functions and reads the behaviour of the
  collaborators from a second record (\<open>env\<close>) that the program cannot change.

  Strings are lists of bytes; the accented letters of the Spanish messages appear as their
  UTF-8 bytes. Paths follow POSIX.
\<close>

subsection \<open>Exceptions\<close>

text \<open>
  The exceptions that the library calls of the script can raise, each with the text that
  \<open>str(e)\<close> gives. Only \<open>RequestException\<close> is named by the source (line 56);
  \<open>guardar_en_csv\<close> catches every \<open>Exception\<close> (line 74).
\<close>

datatype exn =
    RequestException string
  | OSError string
  | ValueError string
  | TimeoutError string
  | PlaywrightError string

fun exn_str :: "exn \<Rightarrow> string" where
  "exn_str (RequestException m) = m"
| "exn_str (OSError m) = m"
| "exn_str (ValueError m) = m"
| "exn_str (TimeoutError m) = m"
| "exn_str (PlaywrightError m) = m"

subsection \<open>Collaborators\<close>

text \<open>
  A file path may be faulty: \<open>OpenFails\<close> makes \<open>open\<close> raise, \<open>WriteFails k\<close> lets the
  first \<open>k\<close> calls of \<open>write\<close> on a handle through and makes every later one raise. What was
  written before a failure is on disk, since leaving the \<open>with\<close> block closes the file.
\<close>

datatype io_fault = NoFault | OpenFails string | WriteFails nat string

text \<open>
  The \<open>content-length\<close> header as \<open>int(response.headers.get("content-length", 0))\<close>
  sees it: absent, a number, or text that \<open>int\<close> rejects.
\<close>

datatype header_value = Missing | Numeric int | NonNumeric string

text \<open>
  A response of \<open>requests.get(..., stream=True)\<close>: the status, the header, the chunks that
  \<open>iter_content(chunk_size=1024)\<close> yields, and the \<open>RequestException\<close> that ends the
  iteration after the last of them, if the connection breaks.
\<close>

record response =
  status_code :: int
  content_length :: header_value
  chunks :: "string list"
  stream_error :: "string option"

datatype http_outcome = Failed string | Responded response

text \<open>
  What the browser shows after the search: the \<open>href\<close> attribute of every element that the
  XPath locator matches, in page order (\<open>None\<close> where \<open>get_attribute\<close> returns \<open>None\<close>),
  the bytes of the screenshot and the page title. The other outcomes are the exceptions of
  the Playwright calls before line 107.
\<close>

record page =
  hrefs :: "string option list"
  screenshot_png :: string
  title :: string

datatype search_outcome =
    LaunchFailed string
  | NavigationFailed string
  | SelectorTimeout string
  | Rendered page

text \<open>
  \<open>http_get n url\<close> is the outcome of the request for \<open>url\<close> when \<open>n\<close> requests have been
  made before it: a server may answer the same URL differently over time.
  \<open>browse term ms\<close> is the outcome of the search for \<open>term\<close> when the wait for the result
  selector is bounded by \<open>ms\<close> milliseconds.
\<close>

record env =
  http_get :: "nat \<Rightarrow> string \<Rightarrow> http_outcome"
  file_fault :: "string \<Rightarrow> io_fault"
  browse :: "string \<Rightarrow> nat \<Rightarrow> search_outcome"

record world =
  files :: "string \<rightharpoonup> string"
  stdout :: "string list"
  requests :: "string list"

subsection \<open>Console and files\<close>

definition print :: "string \<Rightarrow> world \<Rightarrow> world" where
  "print s w = w\<lparr>stdout := stdout w @ [s]\<rparr>"

definition contents :: "world \<Rightarrow> string \<Rightarrow> string" where
  "contents w path = (case files w path of None \<Rightarrow> [] | Some c \<Rightarrow> c)"

text \<open>\<open>open(path, "wb")\<close>: creates or truncates.\<close>

definition fopen_w :: "env \<Rightarrow> string \<Rightarrow> world \<Rightarrow> exn + world" where
  "fopen_w e path w =
     (case file_fault e path of
        OpenFails m \<Rightarrow> Inl (OSError m)
      | _ \<Rightarrow> Inr (w\<lparr>files := (files w)(path \<mapsto> [])\<rparr>))"

text \<open>\<open>open(path, "a", newline="", encoding="utf-8")\<close>: creates if absent, keeps what is there.\<close>

definition fopen_a :: "env \<Rightarrow> string \<Rightarrow> world \<Rightarrow> exn + world" where
  "fopen_a e path w =
     (case file_fault e path of
        OpenFails m \<Rightarrow> Inl (OSError m)
      | _ \<Rightarrow> Inr (w\<lparr>files := (files w)(path \<mapsto> contents w path)\<rparr>))"

text \<open>\<open>f.write(data)\<close>, the call number \<open>n\<close> (from 0) on its handle.\<close>

definition fwrite :: "env \<Rightarrow> string \<Rightarrow> nat \<Rightarrow> string \<Rightarrow> world \<Rightarrow> exn + world" where
  "fwrite e path n data w =
     (case file_fault e path of
        WriteFails k m \<Rightarrow>
          if k \<le> n then Inl (OSError m)
          else Inr (w\<lparr>files := (files w)(path \<mapsto> contents w path @ data)\<rparr>)
      | _ \<Rightarrow> Inr (w\<lparr>files := (files w)(path \<mapsto> contents w path @ data)\<rparr>))"

text \<open>A loop of writes on one handle; it stops at the first write that raises.\<close>

fun write_each :: "env \<Rightarrow> string \<Rightarrow> nat \<Rightarrow> string list \<Rightarrow> world \<Rightarrow> (exn + unit) \<times> world" where
  "write_each e path n [] w = (Inr (), w)"
| "write_each e path n (d # ds) w =
     (case fwrite e path n d w of
        Inl x \<Rightarrow> (Inl x, w)
      | Inr w' \<Rightarrow> write_each e path (Suc n) ds w')"

subsection \<open>Library functions on strings\<close>

text \<open>\<open>s.split(c)\<close> for a one-character separator: never empty, \<open>''''.split(c) = ['''']\<close>.\<close>

fun split_on :: "char \<Rightarrow> string \<Rightarrow> string list" where
  "split_on c [] = [[]]"
| "split_on c (x # xs) =
     (if x = c then [] # split_on c xs
      else (case split_on c xs of
              [] \<Rightarrow> [[x]]
            | s # ss \<Rightarrow> (x # s) # ss))"

text \<open>\<open>os.path.join(a, b)\<close> of \<open>posixpath\<close>.\<close>

definition path_join :: "string \<Rightarrow> string \<Rightarrow> string" where
  "path_join a b =
     (if b \<noteq> [] \<and> hd b = CHR ''/'' then b
      else if a = [] \<or> last a = CHR ''/'' then a @ b
      else a @ ''/'' @ b)"

text \<open>\<open>str(n)\<close> for integers.\<close>

definition digit_char :: "nat \<Rightarrow> char" where
  "digit_char d = char_of (48 + d)"

fun str_nat :: "nat \<Rightarrow> string" where
  "str_nat n = (if n < 10 then [digit_char n] else str_nat (n div 10) @ [digit_char (n mod 10)])"

declare str_nat.simps [simp del]

definition str_int :: "int \<Rightarrow> string" where
  "str_int i = (if i < 0 then CHR ''-'' # str_nat (nat (- i)) else str_nat (nat i))"

text \<open>
  \<open>csv.writer(file).writerow(row)\<close> in the default \<open>excel\<close> dialect: a field is quoted
  when it holds the delimiter, the quote character or a character of the line terminator,
  quote characters inside are doubled, a row of one empty field is written as two quote
  characters, and the row ends with CR LF.
\<close>

definition csv_special :: "char \<Rightarrow> bool" where
  "csv_special c = (c = CHR '','' \<or> c = CHR 0x22 \<or> c = CHR 0x0D \<or> c = CHR 0x0A)"

definition csv_field :: "string \<Rightarrow> string" where
  "csv_field s =
     (if list_ex csv_special s
      then [CHR 0x22] @ concat (map (\<lambda>c. if c = CHR 0x22 then [c, c] else [c]) s) @ [CHR 0x22]
      else s)"

fun csv_join :: "string list \<Rightarrow> string" where
  "csv_join [] = []"
| "csv_join [f] = f"
| "csv_join (f # g # fs) = f @ '','' @ csv_join (g # fs)"

definition csv_writerow :: "string list \<Rightarrow> string" where
  "csv_writerow row =
     (if row = [[]] then [CHR 0x22, CHR 0x22] else csv_join (map csv_field row))
     @ [CHR 0x0D, CHR 0x0A]"

section \<open>The script\<close>

definition DATA_DIR :: string where
  "DATA_DIR = ''data''"

definition CSV_FILE :: string where
  "CSV_FILE = ''articles_arxiv.csv''"

subsection \<open>descargar_pdf\<close>

text \<open>Line 26: \<open>file_id = file_url.split("/")[-1]\<close>. The list is never empty.\<close>

definition file_id_of :: "string \<Rightarrow> string" where
  "file_id_of file_url = last (split_on CHR ''/'' file_url)"

text \<open>Line 30: \<open>pdf_url = f"https://arxiv.org/pdf/{file_id}.pdf"\<close>.\<close>

definition pdf_url_of :: "string \<Rightarrow> string" where
  "pdf_url_of file_id = ''https://arxiv.org/pdf/'' @ file_id @ ''.pdf''"

text \<open>Line 43: the \<open>total\<close> argument of the progress bar.\<close>

definition bar_total :: "header_value \<Rightarrow> exn + int" where
  "bar_total h =
     (case h of
        Missing \<Rightarrow> Inr 0
      | Numeric n \<Rightarrow> Inr n
      | NonNumeric s \<Rightarrow> Inl (ValueError s))"

text \<open>
  Lines 48 to 50: every chunk that arrives is written; the iterator raises when the
  connection breaks. The progress bar writes to the terminal's error stream only and is
  left out.
\<close>

definition stream_body :: "env \<Rightarrow> string \<Rightarrow> response \<Rightarrow> world \<Rightarrow> (exn + unit) \<times> world" where
  "stream_body e file_path resp w =
     (case write_each e file_path 0 (chunks resp) w of
        (Inl x, w') \<Rightarrow> (Inl x, w')
      | (Inr u, w') \<Rightarrow>
          (case stream_error resp of
             None \<Rightarrow> (Inr (), w')
           | Some m \<Rightarrow> (Inl (RequestException m), w')))"

text \<open>Lines 38 to 55, the body of the \<open>try\<close>.\<close>

definition descargar_try ::
  "env \<Rightarrow> string \<Rightarrow> string \<Rightarrow> string \<Rightarrow> world \<Rightarrow> (exn + string option) \<times> world" where
  "descargar_try e file_id pdf_url output_dir w =
     (let w0 = w\<lparr>requests := requests w @ [pdf_url]\<rparr> in
      case http_get e (length (requests w)) pdf_url of
        Failed m \<Rightarrow> (Inl (RequestException m), w0)
      | Responded resp \<Rightarrow>
          if status_code resp = 200 then
            let file_path = path_join output_dir (file_id @ ''.pdf'') in
            (case fopen_w e file_path w0 of
               Inl x \<Rightarrow> (Inl x, w0)
             | Inr w1 \<Rightarrow>
                 (case bar_total (content_length resp) of
                    Inl x \<Rightarrow> (Inl x, w1)
                  | Inr bar \<Rightarrow>
                      (case stream_body e file_path resp w1 of
                         (Inl x, w2) \<Rightarrow> (Inl x, w2)
                       | (Inr u, w2) \<Rightarrow>
                           (Inr (Some file_path),
                            print (''Archivo descargado: '' @ file_path) w2))))
          else
            (Inr None,
             print (''Error al descargar '' @ pdf_url @ '': C'' @ [CHR 0xC3, CHR 0xB3]
                    @ ''digo '' @ str_int (status_code resp)) w0))"

text \<open>Lines 17 to 58. Only a \<open>RequestException\<close> is caught; anything else propagates.\<close>

definition descargar_pdf ::
  "env \<Rightarrow> string \<Rightarrow> string \<Rightarrow> world \<Rightarrow> (exn + string option) \<times> world" where
  "descargar_pdf e file_url output_dir w =
     (let file_id = file_id_of file_url;
          pdf_url = pdf_url_of file_id
      in case descargar_try e file_id pdf_url output_dir w of
           (Inl (RequestException m), w') \<Rightarrow>
             (Inr None, print (''Error en la descarga de '' @ pdf_url @ '': '' @ m) w')
         | (r, w') \<Rightarrow> (r, w'))"

subsection \<open>guardar_en_csv\<close>

text \<open>Lines 69 to 73, the body of the \<open>try\<close>.\<close>

definition guardar_try :: "env \<Rightarrow> string list \<Rightarrow> string \<Rightarrow> world \<Rightarrow> (exn + unit) \<times> world" where
  "guardar_try e links file_path w =
     (case fopen_a e file_path w of
        Inl x \<Rightarrow> (Inl x, w)
      | Inr w1 \<Rightarrow>
          (case write_each e file_path 0 (map (\<lambda>link. csv_writerow [link]) links) w1 of
             (Inl x, w2) \<Rightarrow> (Inl x, w2)
           | (Inr u, w2) \<Rightarrow>
               (Inr (),
                print (str_nat (length links) @ '' enlaces guardados en '' @ file_path) w2)))"

text \<open>Lines 61 to 75. Every exception of the body is caught and printed.\<close>

definition guardar_en_csv :: "env \<Rightarrow> string list \<Rightarrow> string \<Rightarrow> world \<Rightarrow> (exn + unit) \<times> world" where
  "guardar_en_csv e links file_path w =
     (case guardar_try e links file_path w of
        (Inl x, w') \<Rightarrow> (Inr (), print (''Error al escribir en CSV: '' @ exn_str x) w')
      | (Inr u, w') \<Rightarrow> (Inr (), w'))"

subsection \<open>scrape_arxiv\<close>

text \<open>
  Lines 115 to 122: the loop over the matched elements. \<open>if href:\<close> is false for \<open>None\<close>
  and for the empty string. The value that \<open>descargar_pdf\<close> returns is not used; an
  exception that it lets through ends the loop and the run.
\<close>

fun scrape_loop ::
  "env \<Rightarrow> string option list \<Rightarrow> string list \<Rightarrow> world \<Rightarrow> (exn + string list) \<times> world" where
  "scrape_loop e [] pdf_links w = (Inr pdf_links, w)"
| "scrape_loop e (None # hs) pdf_links w = scrape_loop e hs pdf_links w"
| "scrape_loop e (Some href # hs) pdf_links w =
     (if href \<noteq> [] then
        (case descargar_pdf e href DATA_DIR w of
           (Inl x, w') \<Rightarrow> (Inl x, w')
         | (Inr r, w') \<Rightarrow> scrape_loop e hs (pdf_links @ [href]) w')
      else scrape_loop e hs pdf_links w)"

text \<open>\<open>page.screenshot(path=...)\<close> writes the image file.\<close>

definition screenshot :: "env \<Rightarrow> string \<Rightarrow> string \<Rightarrow> world \<Rightarrow> exn + world" where
  "screenshot e path png w =
     (case file_fault e path of
        NoFault \<Rightarrow> Inr (w\<lparr>files := (files w)(path \<mapsto> png)\<rparr>)
      | OpenFails m \<Rightarrow> Inl (PlaywrightError m)
      | WriteFails k m \<Rightarrow> Inl (PlaywrightError m))"

text \<open>
  Lines 88 to 122: the search, the wait for the result selector and the loop. The search
  term goes to the console and into the search field as it is. An exception of a browser
  call or of a download leaves the function at once. The result is the page and
  \<open>pdf_links\<close> as they stand at line 124.
\<close>

definition scrape_links ::
  "env \<Rightarrow> string \<Rightarrow> world \<Rightarrow> (exn + page \<times> string list) \<times> world" where
  "scrape_links e search_term w =
     (let w1 = print (''Buscando art'' @ [CHR 0xC3, CHR 0xAD] @ ''culos con el t''
                      @ [CHR 0xC3, CHR 0xA9] @ ''rmino: '' @ search_term) w in
      case browse e search_term 5000 of
        LaunchFailed m \<Rightarrow> (Inl (PlaywrightError m), w)
      | NavigationFailed m \<Rightarrow> (Inl (PlaywrightError m), w1)
      | SelectorTimeout m \<Rightarrow> (Inl (TimeoutError m), w1)
      | Rendered pg \<Rightarrow>
          (let w2 = print (''Se encontraron '' @ str_nat (length (hrefs pg))
                           @ '' PDFs para descargar.'') w1 in
           case scrape_loop e (hrefs pg) [] w2 of
             (Inl x, w3) \<Rightarrow> (Inl x, w3)
           | (Inr pdf_links, w3) \<Rightarrow> (Inr (pg, pdf_links), w3)))"

text \<open>Lines 82 to 133: after the loop, the list file, the screenshot and the title.\<close>

definition scrape_arxiv :: "env \<Rightarrow> string \<Rightarrow> world \<Rightarrow> (exn + unit) \<times> world" where
  "scrape_arxiv e search_term w =
     (case scrape_links e search_term w of
        (Inl x, w3) \<Rightarrow> (Inl x, w3)
      | (Inr (pg, pdf_links), w3) \<Rightarrow>
          (case guardar_en_csv e pdf_links CSV_FILE w3 of
             (Inl x, w4) \<Rightarrow> (Inl x, w4)
           | (Inr u, w4) \<Rightarrow>
               (case screenshot e ''example.png'' (screenshot_png pg) w4 of
                  Inl x \<Rightarrow> (Inl x, w4)
                | Inr w5 \<Rightarrow>
                    (Inr (),
                     print (''P'' @ [CHR 0xC3, CHR 0xA1] @ ''gina cargada: '' @ title pg) w5))))"

section \<open>Sample inputs\<close>

text \<open>Concrete responses, a page and a world on which the theorems below are run.\<close>

definition sample_pdf :: response where
  "sample_pdf =
     \<lparr>status_code = 200, content_length = Numeric 8, chunks = [''%PDF'', ''-1.7''],
      stream_error = None\<rparr>"

definition sample_pdf2 :: response where
  "sample_pdf2 =
     \<lparr>status_code = 200, content_length = Missing, chunks = [''%PDF-2.0''],
      stream_error = None\<rparr>"

definition sample_404 :: response where
  "sample_404 =
     \<lparr>status_code = 404, content_length = Missing, chunks = [], stream_error = None\<rparr>"

definition sample_cut :: response where
  "sample_cut =
     \<lparr>status_code = 200, content_length = Numeric 8, chunks = [''%PDF''],
      stream_error = Some ''Connection broken''\<rparr>"

definition sample_page :: page where
  "sample_page =
     \<lparr>hrefs = [Some ''https://arxiv.org/pdf/2301.04567'', None,
               Some ''https://arxiv.org/pdf/2301.04568''],
      screenshot_png = ''PNG'', title = ''Search''\<rparr>"

definition sample_world :: world where
  "sample_world = \<lparr>files = Map.empty, stdout = [], requests = []\<rparr>"

text \<open>An environment without file faults whose browser shows \<open>sample_page\<close> for every term.\<close>

definition sample_env :: "(nat \<Rightarrow> string \<Rightarrow> http_outcome) \<Rightarrow> env" where
  "sample_env h =
     \<lparr>http_get = h, file_fault = (\<lambda>p. NoFault), browse = (\<lambda>t ms. Rendered sample_page)\<rparr>"

text \<open>A world in which one paper has been downloaded and nothing recorded yet.\<close>

definition sample_downloaded :: world where
  "sample_downloaded =
     \<lparr>files = [''data/2301.04567.pdf'' \<mapsto> ''%PDF-1.7''],
      stdout = [''Archivo descargado: data/2301.04567.pdf''],
      requests = [''https://arxiv.org/pdf/2301.04567.pdf'']\<rparr>"

text \<open>An environment in which the list file cannot be opened.\<close>

definition sample_denied :: env where
  "sample_denied =
     \<lparr>http_get = (\<lambda>n u. Responded sample_pdf),
      file_fault = (\<lambda>p. if p = ''articles_arxiv.csv'' then OpenFails ''Permission denied''
                         else NoFault),
      browse = (\<lambda>t ms. Rendered sample_page)\<rparr>"

text \<open>
  An environment whose results take eight seconds to render: a wait of less than that
  times out.
\<close>

definition sample_slow :: env where
  "sample_slow =
     \<lparr>http_get = (\<lambda>n u. Responded sample_pdf), file_fault = (\<lambda>p. NoFault),
      browse = (\<lambda>t ms. if ms < 8000 then SelectorTimeout ''Timeout 5000ms exceeded.''
                       else Rendered sample_page)\<rparr>"

text \<open>
  An environment in which no download succeeds: the first request is answered with 404,
  every later one times out.
\<close>

definition sample_failing :: env where
  "sample_failing =
     sample_env (\<lambda>n u. if n = 0 then Responded sample_404 else Failed ''Read timed out.'')"




text \<open>An environment in which the list file takes one row and then no more.\<close>

definition sample_full :: env where
  "sample_full =
     \<lparr>http_get = (\<lambda>n u. Responded sample_pdf),
      file_fault = (\<lambda>p. if p = ''articles_arxiv.csv''
                         then WriteFails 1 ''No space left on device'' else NoFault),
      browse = (\<lambda>t ms. Rendered sample_page)\<rparr>"

section \<open>Notions of the specification\<close>

text \<open>
  The links that the loop enumerates from the matched elements: the \<open>href\<close> values that
  are present and not empty, in page order.
\<close>

definition enumerated :: "string option list \<Rightarrow> string list" where
  "enumerated hs =
     concat (map (\<lambda>h. case h of None \<Rightarrow> [] | Some s \<Rightarrow> if s = [] then [] else [s]) hs)"

text \<open>The rows that \<open>guardar_en_csv\<close> writes for a list of links.\<close>

definition csv_rows :: "string list \<Rightarrow> string" where
  "csv_rows links = concat (map (\<lambda>link. csv_writerow [link]) links)"

text \<open>
  The identifier in the words of the specification: the raw text after the last slash of
  the link, the whole link when it has no slash. It is compared with \<open>file_id_of\<close> below.
\<close>

definition after_last_slash :: "string \<Rightarrow> string" where
  "after_last_slash u = rev (takeWhile (\<lambda>c. c \<noteq> CHR ''/'') (rev u))"

text \<open>Two worlds agree when they differ at most in what was printed.\<close>

definition agree :: "world \<Rightarrow> world \<Rightarrow> bool" where
  "agree w w' = (files w = files w' \<and> requests w = requests w')"

section \<open>Lemmas about the library functions\<close>

lemma split_on_not_Nil: "split_on c s \<noteq> []"
  by (induction s) (auto split: list.splits)

lemma split_on_append_sep: "split_on c (p @ c # s) = split_on c p @ split_on c s"
proof (induction p)
  case Nil
  show ?case by simp
next
  case (Cons x p)
  obtain a as where pa: "split_on c p = a # as"
    using split_on_not_Nil [of c p] by (cases "split_on c p") auto
  show ?case using Cons pa by simp
qed

lemma split_on_no_sep: "c \<notin> set s \<Longrightarrow> split_on c s = [s]"
  by (induction s) auto

lemma file_id_of_no_slash: "CHR ''/'' \<notin> set s \<Longrightarrow> file_id_of s = s"
  by (simp add: file_id_of_def split_on_no_sep)

lemma file_id_of_after_slash: "file_id_of (p @ CHR ''/'' # s) = file_id_of s"
  by (simp add: file_id_of_def split_on_append_sep split_on_not_Nil)

lemma file_id_of_segment: "CHR ''/'' \<notin> set s \<Longrightarrow> file_id_of (p @ CHR ''/'' # s) = s"
  by (simp add: file_id_of_after_slash file_id_of_no_slash)

lemma file_id_of_decomp:
  "\<exists>p. u = p @ file_id_of u \<and> (p = [] \<or> last p = CHR ''/'') \<and> CHR ''/'' \<notin> set (file_id_of u)"
proof (cases "CHR ''/'' \<in> set u")
  case True
  then obtain ys zs where u: "u = ys @ CHR ''/'' # zs" and zs: "CHR ''/'' \<notin> set zs"
    by (auto dest: split_list_last)
  have "file_id_of u = zs" using u zs by (simp add: file_id_of_segment)
  moreover have "u = (ys @ ''/'') @ zs" using u by simp
  ultimately show ?thesis using zs
    by (intro exI [of _ "ys @ ''/''"]) simp
next
  case False
  then show ?thesis by (intro exI [of _ "[]"]) (simp add: file_id_of_no_slash)
qed

lemma file_id_of_no_slash_in: "CHR ''/'' \<notin> set (file_id_of u)"
  using file_id_of_decomp [of u] by blast

lemma file_id_of_append_no_slash:
  "CHR ''/'' \<notin> set s \<Longrightarrow> file_id_of (b @ s) = file_id_of b @ s"
proof (cases "CHR ''/'' \<in> set b")
  case True
  assume s: "CHR ''/'' \<notin> set s"
  from True obtain ys zs where b: "b = ys @ CHR ''/'' # zs" and zs: "CHR ''/'' \<notin> set zs"
    by (auto dest: split_list_last)
  have "file_id_of (ys @ CHR ''/'' # (zs @ s)) = zs @ s"
    using s zs by (intro file_id_of_segment) simp
  moreover have "file_id_of b = zs" using b zs by (simp add: file_id_of_segment)
  ultimately show ?thesis using b by simp
next
  case False
  assume "CHR ''/'' \<notin> set s"
  with False show ?thesis by (simp add: file_id_of_no_slash)
qed

lemma file_id_of_after_last_slash: "file_id_of u = after_last_slash u"
proof (cases "CHR ''/'' \<in> set u")
  case True
  then obtain ys zs where u: "u = ys @ CHR ''/'' # zs" and zs: "CHR ''/'' \<notin> set zs"
    by (auto dest: split_list_last)
  have "takeWhile (\<lambda>c. c \<noteq> CHR ''/'') (rev zs @ CHR ''/'' # rev ys) = rev zs"
    using zs by (auto simp: takeWhile_tail takeWhile_eq_all_conv)
  then show ?thesis using u zs by (simp add: after_last_slash_def file_id_of_segment)
next
  case False
  then have "\<forall>x\<in>set (rev u). x \<noteq> CHR ''/''"
    by auto
  then have "takeWhile (\<lambda>c. c \<noteq> CHR ''/'') (rev u) = rev u"
    by (simp only: takeWhile_eq_all_conv)
  then have "after_last_slash u = u"
    by (simp only: after_last_slash_def rev_rev_ident)
  then show ?thesis using False by (simp add: file_id_of_no_slash)
qed

lemma path_join_pdf:
  "path_join d (file_id_of u @ ''.pdf'') =
     (if d = [] \<or> last d = CHR ''/'' then d @ file_id_of u @ ''.pdf''
      else d @ ''/'' @ file_id_of u @ ''.pdf'')"
proof -
  have "hd (file_id_of u @ ''.pdf'') \<noteq> CHR ''/''"
    using file_id_of_no_slash_in [of u] by (cases "file_id_of u") auto
  then show ?thesis by (simp add: path_join_def)
qed

lemma enumerated_simps:
  "enumerated [] = []"
  "enumerated (None # hs) = enumerated hs"
  "enumerated (Some s # hs) = (if s = [] then enumerated hs else s # enumerated hs)"
  by (simp_all add: enumerated_def)

lemma enumerated_nonempty: "l \<in> set (enumerated hs) \<Longrightarrow> l \<noteq> []"
proof (induction hs)
  case Nil
  then show ?case by (simp add: enumerated_simps)
next
  case (Cons a hs)
  then show ?case by (cases a) (auto simp: enumerated_simps split: if_splits)
qed

lemma csv_writerow_plain:
  "l \<noteq> [] \<Longrightarrow> \<not> list_ex csv_special l \<Longrightarrow> csv_writerow [l] = l @ [CHR 0x0D, CHR 0x0A]"
  by (simp add: csv_writerow_def csv_field_def)

lemma csv_rows_plain:
  "\<forall>l\<in>set ls. l \<noteq> [] \<and> \<not> list_ex csv_special l \<Longrightarrow>
   csv_rows ls = concat (map (\<lambda>l. l @ [CHR 0x0D, CHR 0x0A]) ls)"
  by (induction ls) (simp_all add: csv_rows_def csv_writerow_plain)

lemma csv_rows_enumerated_plain:
  "\<forall>l\<in>set (enumerated hs). \<not> list_ex csv_special l \<Longrightarrow>
   csv_rows (enumerated hs) = concat (map (\<lambda>l. l @ [CHR 0x0D, CHR 0x0A]) (enumerated hs))"
  by (rule csv_rows_plain) (auto dest: enumerated_nonempty)

section \<open>What each function changes\<close>

lemma fwrite_NoFault:
  "file_fault e path = NoFault \<Longrightarrow>
   fwrite e path n d w = Inr (w\<lparr>files := (files w)(path \<mapsto> contents w path @ d)\<rparr>)"
  by (simp add: fwrite_def)

lemma write_each_NoFault:
  "file_fault e path = NoFault \<Longrightarrow>
   write_each e path n ds w =
     (Inr (), if ds = [] then w else w\<lparr>files := (files w)(path \<mapsto> contents w path @ concat ds)\<rparr>)"
proof (induction ds arbitrary: n w)
  case Nil
  show ?case by simp
next
  case (Cons d ds)
  show ?case
    using Cons.prems
    by (simp add: fwrite_NoFault Cons.IH [OF Cons.prems] contents_def)
qed

lemma fwrite_frame:
  "fwrite e path n d w = Inr w' \<Longrightarrow>
   stdout w' = stdout w \<and> requests w' = requests w \<and> (\<forall>q. q \<noteq> path \<longrightarrow> files w' q = files w q)"
  by (auto simp: fwrite_def split: io_fault.splits if_splits)

lemma write_each_frame:
  "write_each e path n ds w = (res, w') \<Longrightarrow>
   stdout w' = stdout w \<and> requests w' = requests w \<and> (\<forall>q. q \<noteq> path \<longrightarrow> files w' q = files w q)"
proof (induction ds arbitrary: n w)
  case Nil
  then show ?case by simp
next
  case (Cons d ds)
  show ?case
  proof (cases "fwrite e path n d w")
    case (Inl x)
    then show ?thesis using Cons.prems by simp
  next
    case (Inr w1)
    then have "write_each e path (Suc n) ds w1 = (res, w')"
      using Cons.prems by simp
    from Cons.IH [OF this] fwrite_frame [OF Inr] show ?thesis by simp
  qed
qed

lemma stream_body_frame:
  "stream_body e path r w = (res, w') \<Longrightarrow>
   stdout w' = stdout w \<and> requests w' = requests w \<and> (\<forall>q. q \<noteq> path \<longrightarrow> files w' q = files w q)"
  by (cases "write_each e path 0 (chunks r) w")
     (auto simp: stream_body_def split: sum.splits option.splits dest!: write_each_frame)

lemma stream_body_NoFault:
  "file_fault e path = NoFault \<Longrightarrow> files w path = Some [] \<Longrightarrow>
   stream_body e path r w =
     ((case stream_error r of None \<Rightarrow> Inr () | Some m \<Rightarrow> Inl (RequestException m)),
      w\<lparr>files := (files w)(path \<mapsto> concat (chunks r))\<rparr>)"
  by (cases w) (auto simp: stream_body_def write_each_NoFault contents_def split: option.splits)

lemma descargar_try_frame:
  "descargar_try e i url d w = (res, w') \<Longrightarrow>
   requests w' = requests w @ [url] \<and>
   (\<forall>q. q \<noteq> path_join d (i @ ''.pdf'') \<longrightarrow> files w' q = files w q)"
  by (auto simp: descargar_try_def Let_def fopen_w_def print_def
           split: http_outcome.splits if_splits io_fault.splits sum.splits prod.splits
           dest!: stream_body_frame)

lemma descargar_pdf_frame:
  "descargar_pdf e u d w = (res, w') \<Longrightarrow>
   requests w' = requests w @ [pdf_url_of (file_id_of u)] \<and>
   (\<forall>q. q \<noteq> path_join d (file_id_of u @ ''.pdf'') \<longrightarrow> files w' q = files w q)"
  by (auto simp: descargar_pdf_def Let_def print_def
           split: sum.splits prod.splits exn.splits
           dest!: descargar_try_frame)

lemma descargar_pdf_ok:
  assumes "http_get e (length (requests w)) (pdf_url_of (file_id_of u)) = Responded r"
    and "status_code r = 200"
    and "stream_error r = None"
    and "bar_total (content_length r) = Inr n"
    and "file_fault e (path_join d (file_id_of u @ ''.pdf'')) = NoFault"
  shows "descargar_pdf e u d w =
     (Inr (Some (path_join d (file_id_of u @ ''.pdf''))),
      w\<lparr>files := (files w)(path_join d (file_id_of u @ ''.pdf'') \<mapsto> concat (chunks r)),
        stdout := stdout w @ [''Archivo descargado: '' @ path_join d (file_id_of u @ ''.pdf'')],
        requests := requests w @ [pdf_url_of (file_id_of u)]\<rparr>)"
  using assms
  by (simp add: descargar_pdf_def descargar_try_def Let_def fopen_w_def stream_body_NoFault
        print_def)

lemma descargar_pdf_broken:
  assumes "http_get e (length (requests w)) (pdf_url_of (file_id_of u)) = Responded r"
    and "status_code r = 200"
    and "stream_error r = Some m"
    and "bar_total (content_length r) = Inr n"
    and "file_fault e (path_join d (file_id_of u @ ''.pdf'')) = NoFault"
  shows "descargar_pdf e u d w =
     (Inr None,
      w\<lparr>files := (files w)(path_join d (file_id_of u @ ''.pdf'') \<mapsto> concat (chunks r)),
        stdout := stdout w @ [''Error en la descarga de '' @ pdf_url_of (file_id_of u) @ '': '' @ m],
        requests := requests w @ [pdf_url_of (file_id_of u)]\<rparr>)"
  using assms
  by (simp add: descargar_pdf_def descargar_try_def Let_def fopen_w_def stream_body_NoFault
        print_def)

lemma descargar_pdf_non200:
  assumes "http_get e (length (requests w)) (pdf_url_of (file_id_of u)) = Responded r"
    and "status_code r \<noteq> 200"
  shows "descargar_pdf e u d w =
     (Inr None,
      w\<lparr>stdout := stdout w @ [''Error al descargar '' @ pdf_url_of (file_id_of u) @ '': C''
                               @ [CHR 0xC3, CHR 0xB3] @ ''digo '' @ str_int (status_code r)],
        requests := requests w @ [pdf_url_of (file_id_of u)]\<rparr>)"
  using assms
  by (simp add: descargar_pdf_def descargar_try_def Let_def print_def)

lemma descargar_pdf_failed:
  assumes "http_get e (length (requests w)) (pdf_url_of (file_id_of u)) = Failed m"
  shows "descargar_pdf e u d w =
     (Inr None,
      w\<lparr>stdout := stdout w @ [''Error en la descarga de '' @ pdf_url_of (file_id_of u) @ '': '' @ m],
        requests := requests w @ [pdf_url_of (file_id_of u)]\<rparr>)"
  using assms
  by (simp add: descargar_pdf_def descargar_try_def Let_def print_def)

lemma descargar_pdf_returns:
  assumes "file_fault e (path_join d (file_id_of u @ ''.pdf'')) = NoFault"
    and "\<forall>n v r s. http_get e n v = Responded r \<longrightarrow> content_length r \<noteq> NonNumeric s"
  shows "\<exists>r. fst (descargar_pdf e u d w) = Inr r"
proof (cases "http_get e (length (requests w)) (pdf_url_of (file_id_of u))")
  case (Failed m)
  then show ?thesis by (simp add: descargar_pdf_failed)
next
  case (Responded r)
  show ?thesis
  proof (cases "status_code r = 200")
    case False
    with Responded show ?thesis by (simp add: descargar_pdf_non200)
  next
    case True
    have "\<forall>s. content_length r \<noteq> NonNumeric s"
      using assms(2) Responded by blast
    then obtain n where b: "bar_total (content_length r) = Inr n"
      by (cases "content_length r") (simp_all add: bar_total_def)
    show ?thesis
    proof (cases "stream_error r")
      case None
      with Responded True b assms(1) show ?thesis by (simp add: descargar_pdf_ok)
    next
      case (Some m)
      with Responded True b assms(1) show ?thesis by (simp add: descargar_pdf_broken)
    qed
  qed
qed

lemma guardar_try_frame:
  "guardar_try e links p w = (res, w') \<Longrightarrow>
   requests w' = requests w \<and> (\<forall>q. q \<noteq> p \<longrightarrow> files w' q = files w q)"
  by (auto simp: guardar_try_def fopen_a_def print_def
           split: io_fault.splits sum.splits prod.splits dest!: write_each_frame)

lemma guardar_try_raises:
  "guardar_try e links p w = (Inl x, w') \<Longrightarrow> stdout w' = stdout w"
  by (auto simp: guardar_try_def fopen_a_def
           split: io_fault.splits sum.splits prod.splits dest!: write_each_frame)

lemma guardar_try_OpenFails:
  "file_fault e p = OpenFails m \<Longrightarrow> guardar_try e links p w = (Inl (OSError m), w)"
  by (simp add: guardar_try_def fopen_a_def)

lemma guardar_en_csv_returns: "fst (guardar_en_csv e links p w) = Inr ()"
  by (simp add: guardar_en_csv_def split: prod.splits sum.splits)

lemma guardar_en_csv_frame:
  "guardar_en_csv e links p w = (res, w') \<Longrightarrow>
   requests w' = requests w \<and> (\<forall>q. q \<noteq> p \<longrightarrow> files w' q = files w q)"
  by (auto simp: guardar_en_csv_def print_def split: sum.splits prod.splits
           dest!: guardar_try_frame)

lemma guardar_en_csv_NoFault:
  "file_fault e p = NoFault \<Longrightarrow>
   guardar_en_csv e links p w =
     (Inr (),
      w\<lparr>files := (files w)(p \<mapsto> contents w p @ csv_rows links),
        stdout := stdout w @ [str_nat (length links) @ '' enlaces guardados en '' @ p]\<rparr>)"
  by (simp add: guardar_en_csv_def guardar_try_def fopen_a_def write_each_NoFault print_def
        contents_def csv_rows_def)

lemma write_each_WriteFails:
  assumes "file_fault e p = WriteFails k m" and "files w p = Some c"
  shows "write_each e p n ds w =
     ((if length ds \<le> k - n then Inr () else Inl (OSError m)),
      w\<lparr>files := (files w)(p \<mapsto> c @ concat (take (k - n) ds))\<rparr>)"
  using assms(2)
proof (induction ds arbitrary: n w c)
  case Nil
  then have "(files w)(p \<mapsto> c) = files w"
    by (simp add: map_upd_triv)
  then show ?case by simp
next
  case (Cons d ds)
  show ?case
  proof (cases "k \<le> n")
    case True
    have "(files w)(p \<mapsto> c) = files w"
      using Cons.prems by (simp add: map_upd_triv)
    then show ?thesis
      using True assms(1) by (simp add: fwrite_def)
  next
    case False
    let ?w' = "w\<lparr>files := (files w)(p \<mapsto> c @ d)\<rparr>"
    have f: "fwrite e p n d w = Inr ?w'"
      using False assms(1) Cons.prems by (simp add: fwrite_def contents_def)
    have s: "files ?w' p = Some (c @ d)"
      by simp
    have k: "k - n = Suc (k - Suc n)"
      using False by simp
    have u: "\<And>y. ?w'\<lparr>files := (files ?w')(p \<mapsto> y)\<rparr> = w\<lparr>files := (files w)(p \<mapsto> y)\<rparr>"
      by simp
    have "write_each e p (Suc n) ds ?w' =
       ((if length ds \<le> k - Suc n then Inr () else Inl (OSError m)),
        w\<lparr>files := (files w)(p \<mapsto> (c @ d) @ concat (take (k - Suc n) ds))\<rparr>)"
      using Cons.IH [OF s, of "Suc n"] by (simp only: u)
    then show ?thesis
      using f by (simp add: k del: fun_upd_apply)
  qed
qed

lemma guardar_en_csv_WriteFails:
  assumes "file_fault e p = WriteFails k m" and "k < length links"
  shows "guardar_en_csv e links p w =
     (Inr (),
      w\<lparr>files := (files w)(p \<mapsto> contents w p @ csv_rows (take k links)),
        stdout := stdout w @ [''Error al escribir en CSV: '' @ m]\<rparr>)"
proof -
  let ?w1 = "w\<lparr>files := (files w)(p \<mapsto> contents w p)\<rparr>"
  have o: "fopen_a e p w = Inr ?w1"
    using assms(1) by (simp add: fopen_a_def)
  have s: "files ?w1 p = Some (contents w p)"
    by simp
  have "write_each e p 0 (map (\<lambda>link. csv_writerow [link]) links) ?w1 =
     (Inl (OSError m),
      ?w1\<lparr>files := (files ?w1)(p \<mapsto> contents w p
          @ concat (take k (map (\<lambda>link. csv_writerow [link]) links)))\<rparr>)"
    using write_each_WriteFails [OF assms(1) s, of 0 "map (\<lambda>link. csv_writerow [link]) links"]
      assms(2)
    by simp
  then show ?thesis
    by (simp add: guardar_en_csv_def guardar_try_def o print_def csv_rows_def take_map)
qed

lemma data_path_not_csv: "path_join DATA_DIR (file_id_of u @ ''.pdf'') \<noteq> CSV_FILE"
  by (simp add: path_join_pdf DATA_DIR_def CSV_FILE_def)

section \<open>The loop and the run\<close>

lemma scrape_loop_result:
  "scrape_loop e hs acc w = (Inr links, w') \<Longrightarrow>
   links = acc @ enumerated hs \<and> files w' CSV_FILE = files w CSV_FILE"
proof (induction e hs acc w rule: scrape_loop.induct)
  case (1 e pdf_links w)
  then show ?case by (simp add: enumerated_def)
next
  case (2 e hs pdf_links w)
  then show ?case by (simp add: enumerated_def)
next
  case (3 e href hs pdf_links w)
  show ?case
  proof (cases "href = []")
    case True
    then show ?thesis using 3 by (simp add: enumerated_def)
  next
    case False
    obtain r w1 where d: "descargar_pdf e href DATA_DIR w = (r, w1)"
      by (cases "descargar_pdf e href DATA_DIR w")
    show ?thesis
    proof (cases r)
      case (Inl x)
      then show ?thesis using "3.prems" False d by simp
    next
      case (Inr v)
      then have "scrape_loop e hs (pdf_links @ [href]) w1 = (Inr links, w')"
        using "3.prems" False d by simp
      then have "links = (pdf_links @ [href]) @ enumerated hs \<and> files w' CSV_FILE = files w1 CSV_FILE"
        using "3.IH" (1) [OF False d [symmetric]] Inr by simp
      moreover have "files w1 CSV_FILE = files w CSV_FILE"
        using descargar_pdf_frame [OF d] data_path_not_csv [of href] by metis
      ultimately show ?thesis using False by (simp add: enumerated_def)
    qed
  qed
qed

lemma scrape_loop_returns:
  assumes "\<forall>u. file_fault e (path_join DATA_DIR (file_id_of u @ ''.pdf'')) = NoFault"
    and "\<forall>n v r s. http_get e n v = Responded r \<longrightarrow> content_length r \<noteq> NonNumeric s"
  shows "fst (scrape_loop e hs acc w) = Inr (acc @ enumerated hs)"
  using assms
proof (induction e hs acc w rule: scrape_loop.induct)
  case (1 e pdf_links w)
  show ?case by (simp add: enumerated_simps)
next
  case (2 e hs pdf_links w)
  then show ?case by (simp add: enumerated_simps)
next
  case (3 e href hs pdf_links w)
  show ?case
  proof (cases "href = []")
    case True
    then show ?thesis using 3 by (simp add: enumerated_simps)
  next
    case False
    have "file_fault e (path_join DATA_DIR (file_id_of href @ ''.pdf'')) = NoFault"
      using "3.prems" (1) by blast
    from descargar_pdf_returns [OF this "3.prems" (2), of w]
    obtain r w' where d: "descargar_pdf e href DATA_DIR w = (Inr r, w')"
      by (cases "descargar_pdf e href DATA_DIR w") auto
    have "fst (scrape_loop e hs (pdf_links @ [href]) w') = Inr ((pdf_links @ [href]) @ enumerated hs)"
      using "3.IH" (1) [OF False d [symmetric] refl "3.prems"] by simp
    then show ?thesis using False d by (simp add: enumerated_simps)
  qed
qed

lemma scrape_loop_no_success:
  assumes "\<forall>n u. case http_get e n u of Failed m \<Rightarrow> True | Responded r \<Rightarrow> status_code r \<noteq> 200"
  shows "fst (scrape_loop e hs acc w) = Inr (acc @ enumerated hs)"
  using assms
proof (induction e hs acc w rule: scrape_loop.induct)
  case (1 e pdf_links w)
  show ?case by (simp add: enumerated_simps)
next
  case (2 e hs pdf_links w)
  then show ?case by (simp add: enumerated_simps)
next
  case (3 e href hs pdf_links w)
  show ?case
  proof (cases "href = []")
    case True
    then show ?thesis using 3 by (simp add: enumerated_simps)
  next
    case False
    let ?url = "pdf_url_of (file_id_of href)"
    have "\<exists>w'. descargar_pdf e href DATA_DIR w = (Inr None, w')"
    proof (cases "http_get e (length (requests w)) ?url")
      case (Failed m)
      then show ?thesis by (simp add: descargar_pdf_failed)
    next
      case (Responded r)
      moreover have "case http_get e (length (requests w)) ?url of
                       Failed m \<Rightarrow> True | Responded r \<Rightarrow> status_code r \<noteq> 200"
        using "3.prems" by blast
      then have "status_code r \<noteq> 200"
        using Responded by simp
      ultimately show ?thesis by (simp add: descargar_pdf_non200)
    qed
    then obtain w' where d: "descargar_pdf e href DATA_DIR w = (Inr None, w')"
      by blast
    have "fst (scrape_loop e hs (pdf_links @ [href]) w') = Inr ((pdf_links @ [href]) @ enumerated hs)"
      using "3.IH" (1) [OF False d [symmetric] refl "3.prems"] by simp
    then show ?thesis using False d by (simp add: enumerated_simps)
  qed
qed

lemma scrape_links_result:
  "scrape_links e t w = (Inr (pg, links), w3) \<Longrightarrow>
   browse e t 5000 = Rendered pg \<and> links = enumerated (hrefs pg) \<and>
   files w3 CSV_FILE = files w CSV_FILE"
  by (auto simp: scrape_links_def Let_def print_def
           split: search_outcome.splits sum.splits prod.splits dest!: scrape_loop_result)

lemma scrape_links_returns:
  assumes "browse e t 5000 = Rendered pg"
    and "\<forall>u. file_fault e (path_join DATA_DIR (file_id_of u @ ''.pdf'')) = NoFault"
    and "\<forall>n v r s. http_get e n v = Responded r \<longrightarrow> content_length r \<noteq> NonNumeric s"
  shows "fst (scrape_links e t w) = Inr (pg, enumerated (hrefs pg))"
proof -
  let ?w2 = "print (''Se encontraron '' @ str_nat (length (hrefs pg)) @ '' PDFs para descargar.'')
     (print (''Buscando art'' @ [CHR 0xC3, CHR 0xAD] @ ''culos con el t''
             @ [CHR 0xC3, CHR 0xA9] @ ''rmino: '' @ t) w)"
  have "fst (scrape_loop e (hrefs pg) [] ?w2) = Inr ([] @ enumerated (hrefs pg))"
    using assms(2,3) by (rule scrape_loop_returns)
  then show ?thesis
    using assms(1)
    by (cases "scrape_loop e (hrefs pg) [] ?w2") (simp add: scrape_links_def Let_def)
qed

lemma scrape_arxiv_csv:
  assumes "scrape_links e t w = (Inr (pg, links), w3)"
    and "file_fault e CSV_FILE = NoFault"
  shows "files (snd (scrape_arxiv e t w)) CSV_FILE =
           Some (contents w CSV_FILE @ csv_rows (enumerated (hrefs pg)))"
proof -
  from scrape_links_result [OF assms(1)]
  have l: "links = enumerated (hrefs pg)" and f: "files w3 CSV_FILE = files w CSV_FILE"
    by simp_all
  have c: "contents w3 CSV_FILE = contents w CSV_FILE"
    by (simp add: contents_def f)
  show ?thesis
    using assms l c
    by (simp add: scrape_arxiv_def guardar_en_csv_NoFault screenshot_def print_def CSV_FILE_def
          split: io_fault.splits)
qed

lemma scrape_arxiv_csv_fst:
  assumes "fst (scrape_links e t w) = Inr (pg, links)"
    and "file_fault e CSV_FILE = NoFault"
  shows "browse e t 5000 = Rendered pg \<and> links = enumerated (hrefs pg) \<and>
         files (snd (scrape_arxiv e t w)) CSV_FILE =
           Some (contents w CSV_FILE @ csv_rows (enumerated (hrefs pg)))"
proof -
  obtain w3 where s: "scrape_links e t w = (Inr (pg, links), w3)"
    using assms(1) by (cases "scrape_links e t w") simp
  show ?thesis
    using scrape_links_result [OF s] scrape_arxiv_csv [OF s assms(2)] by simp
qed

lemma scrape_arxiv_csv_twice:
  assumes "fst (scrape_links e t w) = Inr (pg, links)"
    and "file_fault e CSV_FILE = NoFault"
    and "fst (scrape_links e t (snd (scrape_arxiv e t w))) = Inr (pg', links')"
  shows "files (snd (scrape_arxiv e t (snd (scrape_arxiv e t w)))) CSV_FILE =
           Some (contents w CSV_FILE @ csv_rows (enumerated (hrefs pg))
                 @ csv_rows (enumerated (hrefs pg)))"
proof -
  let ?w1 = "snd (scrape_arxiv e t w)"
  from scrape_arxiv_csv_fst [OF assms(1,2)]
  have b: "browse e t 5000 = Rendered pg"
    and f: "files ?w1 CSV_FILE = Some (contents w CSV_FILE @ csv_rows (enumerated (hrefs pg)))"
    by simp_all
  from scrape_arxiv_csv_fst [OF assms(3,2)]
  have b': "browse e t 5000 = Rendered pg'"
    and f': "files (snd (scrape_arxiv e t ?w1)) CSV_FILE
              = Some (contents ?w1 CSV_FILE @ csv_rows (enumerated (hrefs pg')))"
    by simp_all
  have "pg' = pg" using b b' by simp
  moreover have "contents ?w1 CSV_FILE = contents w CSV_FILE @ csv_rows (enumerated (hrefs pg))"
    using f by (simp add: contents_def)
  ultimately show ?thesis using f' by simp
qed

section \<open>The console does not steer the run\<close>



lemma agree_contents: "agree w w' \<Longrightarrow> contents w p = contents w' p"
  by (simp add: agree_def contents_def)














section \<open>Sample runs\<close>

lemma sample_links: "enumerated (hrefs sample_page)
    = [''https://arxiv.org/pdf/2301.04567'', ''https://arxiv.org/pdf/2301.04568'']"
  by (simp add: sample_page_def enumerated_simps)

lemma sample_rows:
  "csv_rows [''https://arxiv.org/pdf/2301.04567'', ''https://arxiv.org/pdf/2301.04568'']
    = ''https://arxiv.org/pdf/2301.04567'' @ [CHR 0x0D, CHR 0x0A]
      @ ''https://arxiv.org/pdf/2301.04568'' @ [CHR 0x0D, CHR 0x0A]"
  by (simp add: csv_rows_def csv_writerow_def csv_field_def csv_special_def)

lemma sample_env_returns:
  "fst (scrape_links (sample_env (\<lambda>n u. Responded sample_pdf)) t w)
     = Inr (sample_page, [''https://arxiv.org/pdf/2301.04567'', ''https://arxiv.org/pdf/2301.04568''])"
  using scrape_links_returns [of "sample_env (\<lambda>n u. Responded sample_pdf)" t sample_page w]
  by (simp add: sample_env_def sample_pdf_def sample_links)

section \<open>The claims\<close>




text \<open>
  C2. After a run that reaches the recording step (and can write the list file), the list
  file holds what it held before, followed by one row for each \<open>href\<close> that is present and
  not empty, in page order; with no special character in a link its row is the link and
  CR LF. An element without \<open>href\<close> changes nothing. A second run with the same term adds
  the same rows again.
\<close>

theorem list_file_after_run:
  assumes "fst (scrape_links e t w) = Inr (pg, links)"
    and "file_fault e CSV_FILE = NoFault"
  shows "links = enumerated (hrefs pg)
    \<and> files (snd (scrape_arxiv e t w)) CSV_FILE
        = Some (contents w CSV_FILE @ csv_rows (enumerated (hrefs pg)))
    \<and> ((\<forall>l\<in>set (enumerated (hrefs pg)). \<not> list_ex csv_special l) \<longrightarrow>
         csv_rows (enumerated (hrefs pg))
           = concat (map (\<lambda>l. l @ [CHR 0x0D, CHR 0x0A]) (enumerated (hrefs pg))))
    \<and> enumerated (None # hs) = enumerated hs
    \<and> scrape_loop e (None # hs) acc w0 = scrape_loop e hs acc w0
    \<and> (\<forall>pg' links'. fst (scrape_links e t (snd (scrape_arxiv e t w))) = Inr (pg', links') \<longrightarrow>
         files (snd (scrape_arxiv e t (snd (scrape_arxiv e t w)))) CSV_FILE
           = Some (contents w CSV_FILE @ csv_rows (enumerated (hrefs pg))
                   @ csv_rows (enumerated (hrefs pg))))"
  using scrape_arxiv_csv_fst [OF assms] scrape_arxiv_csv_twice [OF assms]
    csv_rows_enumerated_plain [of "hrefs pg"]
  by (simp add: enumerated_simps)

theorem list_file_after_run_witness:
  "fst (scrape_links (sample_env (\<lambda>n u. Responded sample_pdf)) ''learning'' sample_world)
     = Inr (sample_page, [''https://arxiv.org/pdf/2301.04567'', ''https://arxiv.org/pdf/2301.04568''])
   \<and> file_fault (sample_env (\<lambda>n u. Responded sample_pdf)) CSV_FILE = NoFault
   \<and> files (snd (scrape_arxiv (sample_env (\<lambda>n u. Responded sample_pdf)) ''learning''
        sample_world)) CSV_FILE
     = Some (''https://arxiv.org/pdf/2301.04567'' @ [CHR 0x0D, CHR 0x0A]
             @ ''https://arxiv.org/pdf/2301.04568'' @ [CHR 0x0D, CHR 0x0A])
   \<and> fst (scrape_links (sample_env (\<lambda>n u. Responded sample_pdf)) ''learning''
        (snd (scrape_arxiv (sample_env (\<lambda>n u. Responded sample_pdf)) ''learning''
           sample_world)))
     = Inr (sample_page, [''https://arxiv.org/pdf/2301.04567'', ''https://arxiv.org/pdf/2301.04568''])
   \<and> files (snd (scrape_arxiv (sample_env (\<lambda>n u. Responded sample_pdf)) ''learning''
        (snd (scrape_arxiv (sample_env (\<lambda>n u. Responded sample_pdf)) ''learning''
           sample_world)))) CSV_FILE
     = Some (''https://arxiv.org/pdf/2301.04567'' @ [CHR 0x0D, CHR 0x0A]
             @ ''https://arxiv.org/pdf/2301.04568'' @ [CHR 0x0D, CHR 0x0A]
             @ ''https://arxiv.org/pdf/2301.04567'' @ [CHR 0x0D, CHR 0x0A]
             @ ''https://arxiv.org/pdf/2301.04568'' @ [CHR 0x0D, CHR 0x0A])"
proof -
  let ?e = "sample_env (\<lambda>n u. Responded sample_pdf)"
  let ?ls = "[''https://arxiv.org/pdf/2301.04567'', ''https://arxiv.org/pdf/2301.04568'']"
  have h1: "fst (scrape_links ?e ''learning'' sample_world) = Inr (sample_page, ?ls)"
    by (rule sample_env_returns)
  have h2: "file_fault ?e CSV_FILE = NoFault"
    by (simp add: sample_env_def)
  have h3: "fst (scrape_links ?e ''learning'' (snd (scrape_arxiv ?e ''learning'' sample_world)))
      = Inr (sample_page, ?ls)"
    by (rule sample_env_returns)
  have c: "contents sample_world CSV_FILE = []"
    by (simp add: contents_def sample_world_def)
  note t = list_file_after_run [OF h1 h2, of "[]" "[]" sample_world]
  from t have a: "files (snd (scrape_arxiv ?e ''learning'' sample_world)) CSV_FILE
      = Some (contents sample_world CSV_FILE @ csv_rows (enumerated (hrefs sample_page)))"
    by (rule conjunct1 [OF conjunct2])
  from t h3 have b: "files (snd (scrape_arxiv ?e ''learning''
        (snd (scrape_arxiv ?e ''learning'' sample_world)))) CSV_FILE
      = Some (contents sample_world CSV_FILE @ csv_rows (enumerated (hrefs sample_page))
              @ csv_rows (enumerated (hrefs sample_page)))"
    by blast
  show ?thesis
    using h1 h2 h3 a b unfolding c sample_links sample_rows by simp
qed

text \<open>
  C3. When the download request is answered with a status other than 200,
  \<open>descargar_pdf\<close> creates no file, prints the condition, returns \<open>None\<close> and raises
  nothing; the loop of \<open>scrape_arxiv\<close> goes on with the next element.
\<close>

theorem descargar_pdf_non_200:
  assumes "http_get e (length (requests w)) (pdf_url_of (file_id_of u)) = Responded r"
    and "status_code r \<noteq> 200"
  shows "descargar_pdf e u d w =
          (Inr None,
           w\<lparr>stdout := stdout w @ [''Error al descargar '' @ pdf_url_of (file_id_of u) @ '': C''
                                    @ [CHR 0xC3, CHR 0xB3] @ ''digo '' @ str_int (status_code r)],
             requests := requests w @ [pdf_url_of (file_id_of u)]\<rparr>)
    \<and> files (snd (descargar_pdf e u d w)) = files w
    \<and> (u \<noteq> [] \<and> d = DATA_DIR \<longrightarrow>
         scrape_loop e (Some u # hs) acc w =
         scrape_loop e hs (acc @ [u]) (snd (descargar_pdf e u d w)))"
  by (simp add: descargar_pdf_non200 [OF assms])

theorem descargar_pdf_non_200_witness:
  "http_get (sample_env (\<lambda>n u. Responded sample_404)) (length (requests sample_world))
      ''https://arxiv.org/pdf/2301.04567.pdf'' = Responded sample_404
   \<and> status_code sample_404 \<noteq> 200
   \<and> descargar_pdf (sample_env (\<lambda>n u. Responded sample_404))
        ''https://arxiv.org/pdf/2301.04567'' ''data'' sample_world
       = (Inr None,
          \<lparr>files = Map.empty,
           stdout = [''Error al descargar https://arxiv.org/pdf/2301.04567.pdf: C''
                     @ [CHR 0xC3, CHR 0xB3] @ ''digo 404''],
           requests = [''https://arxiv.org/pdf/2301.04567.pdf'']\<rparr>)
   \<and> scrape_loop (sample_env (\<lambda>n u. Responded sample_404))
        [Some ''https://arxiv.org/pdf/2301.04567'', None] [] sample_world
       = scrape_loop (sample_env (\<lambda>n u. Responded sample_404)) [None]
          [''https://arxiv.org/pdf/2301.04567'']
          (snd (descargar_pdf (sample_env (\<lambda>n u. Responded sample_404))
                 ''https://arxiv.org/pdf/2301.04567'' ''data'' sample_world))"
proof -
  have i: "file_id_of ''https://arxiv.org/pdf/2301.04567'' = ''2301.04567''"
    by (simp add: file_id_of_def)
  have s: "str_int 404 = ''404''"
    by code_simp
  show ?thesis
    using descargar_pdf_non_200 [of "sample_env (\<lambda>n u. Responded sample_404)" sample_world
        "''https://arxiv.org/pdf/2301.04567''" sample_404 "''data''" "[None]" "[]"]
    by (simp add: i s pdf_url_of_def sample_env_def sample_404_def sample_world_def DATA_DIR_def)
qed

text \<open>
  C4. When the wait for the result selector, bounded by 5000 milliseconds, times out, the
  run ends with that exception before any download or recording: no request is made and
  no file changes.
\<close>

theorem scrape_arxiv_timeout:
  assumes "browse e t 5000 = SelectorTimeout m"
  shows "fst (scrape_arxiv e t w) = Inl (TimeoutError m)
    \<and> files (snd (scrape_arxiv e t w)) = files w
    \<and> requests (snd (scrape_arxiv e t w)) = requests w"
  using assms by (simp add: scrape_arxiv_def scrape_links_def Let_def print_def)

theorem scrape_arxiv_timeout_witness:
  "browse sample_slow ''learning'' 5000 = SelectorTimeout ''Timeout 5000ms exceeded.''
   \<and> fst (scrape_arxiv sample_slow ''learning'' sample_world)
       = Inl (TimeoutError ''Timeout 5000ms exceeded.'')
   \<and> files (snd (scrape_arxiv sample_slow ''learning'' sample_world)) = Map.empty
   \<and> requests (snd (scrape_arxiv sample_slow ''learning'' sample_world)) = []"
  using scrape_arxiv_timeout [of sample_slow "''learning''" "''Timeout 5000ms exceeded.''"
      sample_world]
  by (simp add: sample_slow_def sample_world_def)

text \<open>
  C5. \<open>guardar_en_csv\<close> never raises: when the body of its \<open>try\<close> fails, the exception is
  printed after \<^verbatim>\<open>Error al escribir en CSV: \<close> and the function returns. No file other
  than the list file changes, so what was downloaded stays on disk. When \<open>open\<close> is what
  fails, no file changes at all; when a write fails, the rows written before it are in the
  list file and the failure is printed, not the line that reports success. The run goes
  on after it: a run that reached the recording step ends normally whatever happened to
  the list file, if the screenshot can be written.
\<close>

theorem guardar_en_csv_recovers:
  "fst (guardar_en_csv e links p w) = Inr ()
   \<and> (\<forall>q. q \<noteq> p \<longrightarrow> files (snd (guardar_en_csv e links p w)) q = files w q)
   \<and> (\<forall>x w'. guardar_try e links p w = (Inl x, w') \<longrightarrow>
         stdout (snd (guardar_en_csv e links p w))
           = stdout w @ [''Error al escribir en CSV: '' @ exn_str x])
   \<and> (\<forall>m. file_fault e p = OpenFails m \<longrightarrow>
         guardar_en_csv e links p w
           = (Inr (), w\<lparr>stdout := stdout w @ [''Error al escribir en CSV: '' @ m]\<rparr>))
   \<and> (\<forall>pg ls. fst (scrape_links e t w0) = Inr (pg, ls) \<and> file_fault e ''example.png'' = NoFault
         \<longrightarrow> fst (scrape_arxiv e t w0) = Inr ())
   \<and> (\<forall>k m. file_fault e p = WriteFails k m \<and> k < length links \<longrightarrow>
         guardar_en_csv e links p w
           = (Inr (),
              w\<lparr>files := (files w)(p \<mapsto> contents w p @ csv_rows (take k links)),
                stdout := stdout w @ [''Error al escribir en CSV: '' @ m]\<rparr>))"
proof -
  have a: "fst (guardar_en_csv e links p w) = Inr ()"
    by (rule guardar_en_csv_returns)
  have b: "\<forall>q. q \<noteq> p \<longrightarrow> files (snd (guardar_en_csv e links p w)) q = files w q"
    using guardar_en_csv_frame [of e links p w] by (cases "guardar_en_csv e links p w") simp
  have c: "\<forall>x w'. guardar_try e links p w = (Inl x, w') \<longrightarrow>
         stdout (snd (guardar_en_csv e links p w))
           = stdout w @ [''Error al escribir en CSV: '' @ exn_str x]"
    by (auto simp: guardar_en_csv_def print_def dest: guardar_try_raises)
  have d: "\<forall>m. file_fault e p = OpenFails m \<longrightarrow>
         guardar_en_csv e links p w
           = (Inr (), w\<lparr>stdout := stdout w @ [''Error al escribir en CSV: '' @ m]\<rparr>)"
    by (simp add: guardar_en_csv_def guardar_try_OpenFails print_def)
  have r: "\<forall>pg ls. fst (scrape_links e t w0) = Inr (pg, ls) \<and> file_fault e ''example.png'' = NoFault
         \<longrightarrow> fst (scrape_arxiv e t w0) = Inr ()"
  proof (intro allI impI)
    fix pg ls
    assume h: "fst (scrape_links e t w0) = Inr (pg, ls) \<and> file_fault e ''example.png'' = NoFault"
    then obtain w3 where s: "scrape_links e t w0 = (Inr (pg, ls), w3)"
      by (cases "scrape_links e t w0") simp
    obtain w4 where g: "guardar_en_csv e ls CSV_FILE w3 = (Inr (), w4)"
      using guardar_en_csv_returns [of e ls CSV_FILE w3]
      by (cases "guardar_en_csv e ls CSV_FILE w3") simp
    show "fst (scrape_arxiv e t w0) = Inr ()"
      using h by (simp add: scrape_arxiv_def s g screenshot_def)
  qed
  have f: "\<forall>k m. file_fault e p = WriteFails k m \<and> k < length links \<longrightarrow>
         guardar_en_csv e links p w
           = (Inr (),
              w\<lparr>files := (files w)(p \<mapsto> contents w p @ csv_rows (take k links)),
                stdout := stdout w @ [''Error al escribir en CSV: '' @ m]\<rparr>)"
    by (simp add: guardar_en_csv_WriteFails)
  from a b c d r f show ?thesis by blast
qed

theorem guardar_en_csv_recovers_witness:
  "file_fault sample_denied ''articles_arxiv.csv'' = OpenFails ''Permission denied''
   \<and> guardar_try sample_denied [''https://arxiv.org/pdf/2301.04567''] ''articles_arxiv.csv''
        sample_downloaded = (Inl (OSError ''Permission denied''), sample_downloaded)
   \<and> fst (guardar_en_csv sample_denied [''https://arxiv.org/pdf/2301.04567'']
        ''articles_arxiv.csv'' sample_downloaded) = Inr ()
   \<and> files (snd (guardar_en_csv sample_denied [''https://arxiv.org/pdf/2301.04567'']
        ''articles_arxiv.csv'' sample_downloaded)) ''data/2301.04567.pdf'' = Some ''%PDF-1.7''
   \<and> stdout (snd (guardar_en_csv sample_denied [''https://arxiv.org/pdf/2301.04567'']
        ''articles_arxiv.csv'' sample_downloaded))
       = [''Archivo descargado: data/2301.04567.pdf'',
          ''Error al escribir en CSV: Permission denied'']
   \<and> fst (scrape_links sample_denied ''learning'' sample_world)
       = Inr (sample_page, [''https://arxiv.org/pdf/2301.04567'', ''https://arxiv.org/pdf/2301.04568''])
   \<and> file_fault sample_denied ''example.png'' = NoFault
   \<and> fst (scrape_arxiv sample_denied ''learning'' sample_world) = Inr ()
   \<and> file_fault sample_full ''articles_arxiv.csv'' = WriteFails 1 ''No space left on device''
   \<and> 1 < length [''https://arxiv.org/pdf/2301.04567'', ''https://arxiv.org/pdf/2301.04568'']
   \<and> fst (guardar_en_csv sample_full
        [''https://arxiv.org/pdf/2301.04567'', ''https://arxiv.org/pdf/2301.04568'']
        ''articles_arxiv.csv'' sample_downloaded) = Inr ()
   \<and> files (snd (guardar_en_csv sample_full
        [''https://arxiv.org/pdf/2301.04567'', ''https://arxiv.org/pdf/2301.04568'']
        ''articles_arxiv.csv'' sample_downloaded)) ''articles_arxiv.csv''
       = Some (''https://arxiv.org/pdf/2301.04567'' @ [CHR 0x0D, CHR 0x0A])
   \<and> files (snd (guardar_en_csv sample_full
        [''https://arxiv.org/pdf/2301.04567'', ''https://arxiv.org/pdf/2301.04568'']
        ''articles_arxiv.csv'' sample_downloaded)) ''data/2301.04567.pdf'' = Some ''%PDF-1.7''
   \<and> stdout (snd (guardar_en_csv sample_full
        [''https://arxiv.org/pdf/2301.04567'', ''https://arxiv.org/pdf/2301.04568'']
        ''articles_arxiv.csv'' sample_downloaded))
       = [''Archivo descargado: data/2301.04567.pdf'',
          ''Error al escribir en CSV: No space left on device'']"
proof -
  let ?ls = "[''https://arxiv.org/pdf/2301.04567'', ''https://arxiv.org/pdf/2301.04568'']"
  have wf: "file_fault sample_full ''articles_arxiv.csv''
      = WriteFails 1 ''No space left on device''"
    by (simp add: sample_full_def)
  have len: "1 < length ?ls"
    by simp
  have row: "csv_rows (take 1 ?ls) = ''https://arxiv.org/pdf/2301.04567'' @ [CHR 0x0D, CHR 0x0A]"
    by (simp add: csv_rows_def csv_writerow_def csv_field_def csv_special_def)
  have cs: "contents sample_downloaded ''articles_arxiv.csv'' = []"
    by (simp add: contents_def sample_downloaded_def)
  have "guardar_en_csv sample_full ?ls ''articles_arxiv.csv'' sample_downloaded
      = (Inr (),
         sample_downloaded\<lparr>files := (files sample_downloaded)(''articles_arxiv.csv'' \<mapsto>
              contents sample_downloaded ''articles_arxiv.csv'' @ csv_rows (take 1 ?ls)),
           stdout := stdout sample_downloaded
              @ [''Error al escribir en CSV: '' @ ''No space left on device'']\<rparr>)"
    using guardar_en_csv_recovers [of sample_full ?ls "''articles_arxiv.csv''" sample_downloaded]
      wf len
    by blast
  then have full: "fst (guardar_en_csv sample_full ?ls ''articles_arxiv.csv'' sample_downloaded)
        = Inr ()
    \<and> files (snd (guardar_en_csv sample_full ?ls ''articles_arxiv.csv'' sample_downloaded))
        ''articles_arxiv.csv'' = Some (''https://arxiv.org/pdf/2301.04567'' @ [CHR 0x0D, CHR 0x0A])
    \<and> files (snd (guardar_en_csv sample_full ?ls ''articles_arxiv.csv'' sample_downloaded))
        ''data/2301.04567.pdf'' = Some ''%PDF-1.7''
    \<and> stdout (snd (guardar_en_csv sample_full ?ls ''articles_arxiv.csv'' sample_downloaded))
       = [''Archivo descargado: data/2301.04567.pdf'',
          ''Error al escribir en CSV: No space left on device'']"
    unfolding cs row by (simp add: sample_downloaded_def)
  have f: "file_fault sample_denied ''articles_arxiv.csv'' = OpenFails ''Permission denied''"
    by (simp add: sample_denied_def)
  have "\<forall>u. file_fault sample_denied (path_join DATA_DIR (file_id_of u @ ''.pdf'')) = NoFault"
    using data_path_not_csv by (simp add: sample_denied_def CSV_FILE_def)
  then have l: "fst (scrape_links sample_denied ''learning'' sample_world)
       = Inr (sample_page, [''https://arxiv.org/pdf/2301.04567'', ''https://arxiv.org/pdf/2301.04568''])"
    using scrape_links_returns [of sample_denied "''learning''" sample_page sample_world]
    by (simp add: sample_denied_def sample_pdf_def sample_links)
  have x: "file_fault sample_denied ''example.png'' = NoFault"
    by (simp add: sample_denied_def)
  have g: "guardar_try sample_denied [''https://arxiv.org/pdf/2301.04567'']
        ''articles_arxiv.csv'' sample_downloaded
      = (Inl (OSError ''Permission denied''), sample_downloaded)"
    by (simp add: guardar_try_def fopen_a_def f)
  have n: "''data/2301.04567.pdf'' \<noteq> ''articles_arxiv.csv''"
    by simp
  show ?thesis
    using guardar_en_csv_recovers [of sample_denied "[''https://arxiv.org/pdf/2301.04567'']"
        "''articles_arxiv.csv''" sample_downloaded "''learning''" sample_world] f g n l x
      wf full
    by (simp add: sample_downloaded_def)
qed

text \<open>
  C6. Two links with the same identifier are downloaded to the same path: after both
  downloads succeed the file holds the body of the second. The second call returns the
  path like the first and prints only the usual line.
\<close>

theorem descargar_pdf_overwrites:
  assumes "file_id_of u1 = file_id_of u2"
    and "http_get e (length (requests w)) (pdf_url_of (file_id_of u1)) = Responded ra"
    and "status_code ra = 200" and "stream_error ra = None"
    and "bar_total (content_length ra) = Inr na"
    and "http_get e (Suc (length (requests w))) (pdf_url_of (file_id_of u2)) = Responded rb"
    and "status_code rb = 200" and "stream_error rb = None"
    and "bar_total (content_length rb) = Inr nb"
    and "file_fault e (path_join d (file_id_of u1 @ ''.pdf'')) = NoFault"
  shows "fst (descargar_pdf e u1 d w) = Inr (Some (path_join d (file_id_of u1 @ ''.pdf'')))
    \<and> files (snd (descargar_pdf e u1 d w)) (path_join d (file_id_of u1 @ ''.pdf''))
        = Some (concat (chunks ra))
    \<and> fst (descargar_pdf e u2 d (snd (descargar_pdf e u1 d w)))
        = Inr (Some (path_join d (file_id_of u1 @ ''.pdf'')))
    \<and> files (snd (descargar_pdf e u2 d (snd (descargar_pdf e u1 d w))))
          (path_join d (file_id_of u1 @ ''.pdf''))
        = Some (concat (chunks rb))
    \<and> stdout (snd (descargar_pdf e u2 d (snd (descargar_pdf e u1 d w))))
        = stdout w @ [''Archivo descargado: '' @ path_join d (file_id_of u1 @ ''.pdf''),
                      ''Archivo descargado: '' @ path_join d (file_id_of u1 @ ''.pdf'')]"
proof -
  let ?p = "path_join d (file_id_of u1 @ ''.pdf'')"
  let ?w1 = "w\<lparr>files := (files w)(?p \<mapsto> concat (chunks ra)),
        stdout := stdout w @ [''Archivo descargado: '' @ ?p],
        requests := requests w @ [pdf_url_of (file_id_of u1)]\<rparr>"
  have first: "descargar_pdf e u1 d w = (Inr (Some ?p), ?w1)"
    using assms(2,3,4,5,10) by (rule descargar_pdf_ok)
  have "http_get e (length (requests ?w1)) (pdf_url_of (file_id_of u2)) = Responded rb"
    using assms(6) by simp
  moreover have "file_fault e (path_join d (file_id_of u2 @ ''.pdf'')) = NoFault"
    using assms(1,10) by simp
  ultimately have second: "descargar_pdf e u2 d ?w1 =
     (Inr (Some (path_join d (file_id_of u2 @ ''.pdf''))),
      ?w1\<lparr>files := (files ?w1)(path_join d (file_id_of u2 @ ''.pdf'') \<mapsto> concat (chunks rb)),
        stdout := stdout ?w1 @ [''Archivo descargado: '' @ path_join d (file_id_of u2 @ ''.pdf'')],
        requests := requests ?w1 @ [pdf_url_of (file_id_of u2)]\<rparr>)"
    using assms(7,8,9) by (intro descargar_pdf_ok)
  show ?thesis
    unfolding first using second assms(1) by simp
qed

theorem descargar_pdf_overwrites_witness:
  "file_id_of ''https://arxiv.org/pdf/2301.04567'' = file_id_of ''https://arxiv.org/abs/2301.04567''
   \<and> fst (descargar_pdf
        (sample_env (\<lambda>n u. if n = 0 then Responded sample_pdf else Responded sample_pdf2))
        ''https://arxiv.org/pdf/2301.04567'' ''data'' sample_world)
       = Inr (Some ''data/2301.04567.pdf'')
   \<and> files (snd (descargar_pdf
        (sample_env (\<lambda>n u. if n = 0 then Responded sample_pdf else Responded sample_pdf2))
        ''https://arxiv.org/pdf/2301.04567'' ''data'' sample_world)) ''data/2301.04567.pdf''
       = Some ''%PDF-1.7''
   \<and> fst (descargar_pdf
        (sample_env (\<lambda>n u. if n = 0 then Responded sample_pdf else Responded sample_pdf2))
        ''https://arxiv.org/abs/2301.04567'' ''data''
        (snd (descargar_pdf
          (sample_env (\<lambda>n u. if n = 0 then Responded sample_pdf else Responded sample_pdf2))
          ''https://arxiv.org/pdf/2301.04567'' ''data'' sample_world)))
       = Inr (Some ''data/2301.04567.pdf'')
   \<and> files (snd (descargar_pdf
        (sample_env (\<lambda>n u. if n = 0 then Responded sample_pdf else Responded sample_pdf2))
        ''https://arxiv.org/abs/2301.04567'' ''data''
        (snd (descargar_pdf
          (sample_env (\<lambda>n u. if n = 0 then Responded sample_pdf else Responded sample_pdf2))
          ''https://arxiv.org/pdf/2301.04567'' ''data'' sample_world)))) ''data/2301.04567.pdf''
       = Some ''%PDF-2.0''"
proof -
  have i: "file_id_of ''https://arxiv.org/pdf/2301.04567'' = ''2301.04567''"
    by (simp add: file_id_of_def)
  have j: "file_id_of ''https://arxiv.org/abs/2301.04567'' = ''2301.04567''"
    by (simp add: file_id_of_def)
  show ?thesis
    using descargar_pdf_overwrites [of "''https://arxiv.org/pdf/2301.04567''"
        "''https://arxiv.org/abs/2301.04567''"
        "sample_env (\<lambda>n u. if n = 0 then Responded sample_pdf else Responded sample_pdf2)"
        sample_world sample_pdf 8 sample_pdf2 0 "''data''"]
    by (simp add: i j pdf_url_of_def path_join_def sample_env_def sample_pdf_def sample_pdf2_def
          sample_world_def bar_total_def)
qed




text \<open>
  C8. What is recorded does not depend on the downloads. \<open>scrape_loop\<close> drops the value
  that \<open>descargar_pdf\<close> returns, whether a path or \<open>None\<close>. A run in which every request
  fails or is answered with a status other than 200 still reaches the recording step, and
  its list file gets the same rows as that of a run on the same page whose downloads went
  otherwise.
\<close>

theorem links_recorded_regardless:
  assumes "fst (scrape_links e1 t w) = Inr (pg, links)"
    and "file_fault e1 CSV_FILE = NoFault"
    and "browse e2 t 5000 = Rendered pg"
    and "file_fault e2 CSV_FILE = NoFault"
    and "\<forall>n u. case http_get e2 n u of Failed m \<Rightarrow> True | Responded r \<Rightarrow> status_code r \<noteq> 200"
  shows "links = enumerated (hrefs pg)
    \<and> fst (scrape_links e2 t w) = Inr (pg, enumerated (hrefs pg))
    \<and> files (snd (scrape_arxiv e1 t w)) CSV_FILE
        = Some (contents w CSV_FILE @ csv_rows (enumerated (hrefs pg)))
    \<and> files (snd (scrape_arxiv e2 t w)) CSV_FILE = files (snd (scrape_arxiv e1 t w)) CSV_FILE
    \<and> (\<forall>href r w'. href \<noteq> [] \<and> descargar_pdf e1 href DATA_DIR w0 = (Inr r, w') \<longrightarrow>
          scrape_loop e1 (Some href # hs) acc w0 = scrape_loop e1 hs (acc @ [href]) w')"
proof -
  let ?w2 = "print (''Se encontraron '' @ str_nat (length (hrefs pg)) @ '' PDFs para descargar.'')
     (print (''Buscando art'' @ [CHR 0xC3, CHR 0xAD] @ ''culos con el t''
             @ [CHR 0xC3, CHR 0xA9] @ ''rmino: '' @ t) w)"
  have l: "fst (scrape_loop e2 (hrefs pg) [] ?w2) = Inr ([] @ enumerated (hrefs pg))"
    using assms(5) by (rule scrape_loop_no_success)
  have s2: "fst (scrape_links e2 t w) = Inr (pg, enumerated (hrefs pg))"
    using l assms(3)
    by (cases "scrape_loop e2 (hrefs pg) [] ?w2") (simp add: scrape_links_def Let_def)
  show ?thesis
    using scrape_arxiv_csv_fst [OF assms(1,2)] scrape_arxiv_csv_fst [OF s2 assms(4)] s2
    by simp
qed

theorem links_recorded_regardless_witness:
  "fst (scrape_links (sample_env (\<lambda>n u. Responded sample_pdf)) ''learning'' sample_world)
     = Inr (sample_page, [''https://arxiv.org/pdf/2301.04567'', ''https://arxiv.org/pdf/2301.04568''])
   \<and> file_fault (sample_env (\<lambda>n u. Responded sample_pdf)) CSV_FILE = NoFault
   \<and> browse sample_failing ''learning'' 5000 = Rendered sample_page
   \<and> file_fault sample_failing CSV_FILE = NoFault
   \<and> http_get sample_failing 0 ''https://arxiv.org/pdf/2301.04567.pdf'' = Responded sample_404
   \<and> http_get sample_failing 1 ''https://arxiv.org/pdf/2301.04568.pdf'' = Failed ''Read timed out.''
   \<and> fst (scrape_links sample_failing ''learning'' sample_world)
     = Inr (sample_page, [''https://arxiv.org/pdf/2301.04567'', ''https://arxiv.org/pdf/2301.04568''])
   \<and> files (snd (scrape_arxiv sample_failing ''learning'' sample_world)) CSV_FILE
     = Some (''https://arxiv.org/pdf/2301.04567'' @ [CHR 0x0D, CHR 0x0A]
             @ ''https://arxiv.org/pdf/2301.04568'' @ [CHR 0x0D, CHR 0x0A])
   \<and> files (snd (scrape_arxiv sample_failing ''learning'' sample_world)) CSV_FILE
     = files (snd (scrape_arxiv (sample_env (\<lambda>n u. Responded sample_pdf)) ''learning''
         sample_world)) CSV_FILE"
proof -
  let ?e = "sample_env (\<lambda>n u. Responded sample_pdf)"
  let ?ls = "[''https://arxiv.org/pdf/2301.04567'', ''https://arxiv.org/pdf/2301.04568'']"
  have h1: "fst (scrape_links ?e ''learning'' sample_world) = Inr (sample_page, ?ls)"
    by (rule sample_env_returns)
  have h2: "file_fault ?e CSV_FILE = NoFault"
    by (simp add: sample_env_def)
  have h3: "browse sample_failing ''learning'' 5000 = Rendered sample_page"
    by (simp add: sample_failing_def sample_env_def)
  have h4: "file_fault sample_failing CSV_FILE = NoFault"
    by (simp add: sample_failing_def sample_env_def)
  have h5: "\<forall>n u. case http_get sample_failing n u of
               Failed m \<Rightarrow> True | Responded r \<Rightarrow> status_code r \<noteq> 200"
    by (simp add: sample_failing_def sample_env_def sample_404_def)
  have g0: "http_get sample_failing 0 ''https://arxiv.org/pdf/2301.04567.pdf'' = Responded sample_404"
    by (simp add: sample_failing_def sample_env_def)
  have g1: "http_get sample_failing 1 ''https://arxiv.org/pdf/2301.04568.pdf''
      = Failed ''Read timed out.''"
    by (simp add: sample_failing_def sample_env_def)
  have c: "contents sample_world CSV_FILE = []"
    by (simp add: contents_def sample_world_def)
  have en: "enumerated (hrefs sample_page) = ?ls"
    by (rule sample_links)
  have r: "csv_rows ?ls
      = ''https://arxiv.org/pdf/2301.04567'' @ [CHR 0x0D, CHR 0x0A]
        @ ''https://arxiv.org/pdf/2301.04568'' @ [CHR 0x0D, CHR 0x0A]"
    by (rule sample_rows)
  note t = links_recorded_regardless [OF h1 h2 h3 h4 h5, of sample_world "[]" "[]"]
  from t have a: "fst (scrape_links sample_failing ''learning'' sample_world)
      = Inr (sample_page, enumerated (hrefs sample_page))"
    by (rule conjunct1 [OF conjunct2])
  from t have b: "files (snd (scrape_arxiv ?e ''learning'' sample_world)) CSV_FILE
      = Some (contents sample_world CSV_FILE @ csv_rows (enumerated (hrefs sample_page)))"
    by (rule conjunct1 [OF conjunct2 [OF conjunct2]])
  from t have d: "files (snd (scrape_arxiv sample_failing ''learning'' sample_world)) CSV_FILE
      = files (snd (scrape_arxiv ?e ''learning'' sample_world)) CSV_FILE"
    by (rule conjunct1 [OF conjunct2 [OF conjunct2 [OF conjunct2]]])
  show ?thesis
    using h1 h2 h3 h4 g0 g1 a b d unfolding c en r by simp
qed

text \<open>
  C9. When the connection breaks after a 200 response while the body is read,
  \<open>descargar_pdf\<close> returns \<open>None\<close> and prints the error, and the output file exists and
  holds the chunks that arrived before the break.
\<close>

theorem descargar_pdf_partial_file:
  assumes "http_get e (length (requests w)) (pdf_url_of (file_id_of u)) = Responded r"
    and "status_code r = 200"
    and "stream_error r = Some m"
    and "bar_total (content_length r) = Inr n"
    and "file_fault e (path_join d (file_id_of u @ ''.pdf'')) = NoFault"
  shows "fst (descargar_pdf e u d w) = Inr None
    \<and> files (snd (descargar_pdf e u d w)) (path_join d (file_id_of u @ ''.pdf''))
        = Some (concat (chunks r))
    \<and> stdout (snd (descargar_pdf e u d w))
        = stdout w @ [''Error en la descarga de '' @ pdf_url_of (file_id_of u) @ '': '' @ m]"
  by (simp add: descargar_pdf_broken [OF assms])

theorem descargar_pdf_partial_file_witness:
  "http_get (sample_env (\<lambda>n u. Responded sample_cut)) (length (requests sample_world))
      ''https://arxiv.org/pdf/2301.04567.pdf'' = Responded sample_cut
   \<and> status_code sample_cut = 200
   \<and> stream_error sample_cut = Some ''Connection broken''
   \<and> fst (descargar_pdf (sample_env (\<lambda>n u. Responded sample_cut))
        ''https://arxiv.org/pdf/2301.04567'' ''data'' sample_world) = Inr None
   \<and> files sample_world ''data/2301.04567.pdf'' = None
   \<and> files (snd (descargar_pdf (sample_env (\<lambda>n u. Responded sample_cut))
        ''https://arxiv.org/pdf/2301.04567'' ''data'' sample_world)) ''data/2301.04567.pdf''
       = Some ''%PDF''
   \<and> stdout (snd (descargar_pdf (sample_env (\<lambda>n u. Responded sample_cut))
        ''https://arxiv.org/pdf/2301.04567'' ''data'' sample_world))
       = [''Error en la descarga de https://arxiv.org/pdf/2301.04567.pdf: Connection broken'']"
proof -
  have i: "file_id_of ''https://arxiv.org/pdf/2301.04567'' = ''2301.04567''"
    by (simp add: file_id_of_def)
  show ?thesis
    using descargar_pdf_partial_file [of "sample_env (\<lambda>n u. Responded sample_cut)" sample_world
        "''https://arxiv.org/pdf/2301.04567''" sample_cut "''Connection broken''" 8 "''data''"]
    by (simp add: i pdf_url_of_def path_join_def sample_env_def sample_cut_def sample_world_def
          bar_total_def)
qed

text \<open>
  C10, as stated, fails for a query string that holds a slash: the identifier is then only
  what follows the last slash of the query.
\<close>

theorem file_id_of_query_counterexample:
  "file_id_of ''https://arxiv.org/pdf/2301.04567?ref=a/b'' = ''b''
   \<and> file_id_of ''https://arxiv.org/pdf/2301.04567?ref=a/b'' \<noteq> ''2301.04567?ref=a/b''"
  by (simp add: file_id_of_def)

text \<open>
  C10 (amended). The identifier is the raw text after the last slash of the link, with
  nothing removed or escaped (the whole link when it has no slash). A link that ends in a
  slash has the empty identifier, so the request goes to \<^verbatim>\<open>https://arxiv.org/pdf/.pdf\<close>
  and the file name is \<^verbatim>\<open>.pdf\<close>. A query string without a slash stays in the identifier
  whole; of a query string with a slash only the part after its last slash remains.
\<close>

theorem file_id_of_raw:
  "file_id_of u = after_last_slash u
   \<and> file_id_of (p @ ''/'') = []
   \<and> pdf_url_of (file_id_of (p @ ''/'')) = ''https://arxiv.org/pdf/.pdf''
   \<and> file_id_of (p @ ''/'') @ ''.pdf'' = ''.pdf''
   \<and> requests (snd (descargar_pdf e (p @ ''/'') d w))
       = requests w @ [''https://arxiv.org/pdf/.pdf'']
   \<and> (CHR ''/'' \<notin> set q \<longrightarrow> file_id_of (b @ ''?'' @ q) = file_id_of b @ ''?'' @ q)
   \<and> file_id_of (b @ ''?'' @ q1 @ ''/'' @ q2) = file_id_of q2"
proof -
  have e: "file_id_of (p @ ''/'') = []"
    using file_id_of_segment [of "[]" p] by simp
  have r: "requests (snd (descargar_pdf e (p @ ''/'') d w))
       = requests w @ [pdf_url_of (file_id_of (p @ ''/''))]"
    using descargar_pdf_frame [of e "p @ ''/''" d w]
    by (cases "descargar_pdf e (p @ ''/'') d w") simp
  have q: "CHR ''/'' \<notin> set q \<longrightarrow> file_id_of (b @ ''?'' @ q) = file_id_of b @ ''?'' @ q"
    using file_id_of_append_no_slash [of "''?'' @ q" b] by simp
  have s: "file_id_of (b @ ''?'' @ q1 @ ''/'' @ q2) = file_id_of q2"
    using file_id_of_after_slash [of "b @ ''?'' @ q1" q2] by simp
  show ?thesis
    using e r q s by (simp add: file_id_of_after_last_slash pdf_url_of_def)
qed

theorem file_id_of_raw_witness:
  "CHR ''/'' \<notin> set ''download=1''
   \<and> file_id_of ''https://arxiv.org/pdf/2301.04567?download=1'' = ''2301.04567?download=1''
   \<and> file_id_of ''https://arxiv.org/pdf/'' = []
   \<and> requests (snd (descargar_pdf (sample_env (\<lambda>n u. Responded sample_404))
        ''https://arxiv.org/pdf/'' ''data'' sample_world)) = [''https://arxiv.org/pdf/.pdf'']"
proof -
  have i: "file_id_of ''https://arxiv.org/pdf/2301.04567'' = ''2301.04567''"
    by (simp add: file_id_of_def)
  show ?thesis
    using file_id_of_raw [of "[]"
        "''https://arxiv.org/pdf''" "sample_env (\<lambda>n u. Responded sample_404)" "''data''"
        sample_world "''download=1''" "''https://arxiv.org/pdf/2301.04567''" "[]" "[]"]
    by (simp add: i sample_world_def)
qed

end
